theory Spec2Isabelle
  imports Complex_Main "HOL-Library.Multiset" "HOL-Library.AList"
begin

section \<open>Python values, exceptions and list primitives\<close>

text \<open>
  The scripts are Python glue around a vendor SDK. Every exception the code can raise is a
  value: a result is \<open>py_exception + 'a\<close>, with \<open>Inl\<close> the raised exception. An
  exception carries its class and the message that \<open>str(e)\<close> returns. All classes below
  derive from Python's \<open>Exception\<close>, so \<open>except Exception\<close> catches each of them.
  \<open>ApiError\<close> stands for whatever the SDK raises, \<open>OSError\<close> for a failing file or
  directory access. The messages of the exceptions that Python itself raises are
  abbreviated; no method prints them.
\<close>

datatype exc_class =
  ApiError | OSError | IndexError | AttributeError | TypeError | KeyError | ValueError
  | ZeroDivisionError

datatype py_exception = Raised exc_class string

fun str_exception :: "py_exception \<Rightarrow> string" where
  "str_exception (Raised c msg) = msg"

text \<open>
  An attribute of an SDK object: absent (\<open>hasattr\<close> is false and reading it raises
  AttributeError), present with the value None, or present with a value.
\<close>

datatype 'a attr = Missing | PyNone | Has 'a

text \<open>Python floats are idealised as exact rationals throughout.\<close>

datatype pyval = PStr string | PInt int | PFloat rat | PBool bool | PNull | PNaN

text \<open>\<open>xs[i]\<close> for a non-negative index.\<close>

definition py_index :: "'a list \<Rightarrow> nat \<Rightarrow> py_exception + 'a" where
  "py_index xs i =
     (if i < length xs then Inr (xs ! i) else Inl (Raised IndexError ''list index out of range''))"

text \<open>\<open>xs[:k]\<close>: a negative bound counts from the end.\<close>

definition slice_to :: "int \<Rightarrow> 'a list \<Rightarrow> 'a list" where
  "slice_to k xs = (if 0 \<le> k then take (nat k) xs else take (nat (int (length xs) + k)) xs)"

text \<open>\<open>xs.index(x)\<close>: the position of the first occurrence, ValueError when there is none.\<close>

fun list_index :: "'a list \<Rightarrow> 'a \<Rightarrow> py_exception + nat" where
  "list_index [] x = Inl (Raised ValueError ''x is not in list'')"
| "list_index (y # ys) x =
     (if y = x then Inr 0
      else (case list_index ys x of Inl e \<Rightarrow> Inl e | Inr i \<Rightarrow> Inr (Suc i)))"

text \<open>\<open>a / b\<close> on numbers.\<close>

definition truediv :: "rat \<Rightarrow> rat \<Rightarrow> py_exception + rat" where
  "truediv a b = (if b = 0 then Inl (Raised ZeroDivisionError ''division by zero'') else Inr (a / b))"

text \<open>
  A list comprehension, or \<open>list(executor.map(f, xs))\<close>, over a function that may raise:
  results come in the order of the inputs and the first exception in that order is the
  one that propagates.
\<close>

fun traverse :: "('a \<Rightarrow> 'e + 'b) \<Rightarrow> 'a list \<Rightarrow> 'e + 'b list" where
  "traverse f [] = Inr []"
| "traverse f (x # xs) =
     (case f x of
        Inl e \<Rightarrow> Inl e
      | Inr y \<Rightarrow> (case traverse f xs of Inl e \<Rightarrow> Inl e | Inr ys \<Rightarrow> Inr (y # ys)))"

subsection \<open>Strings\<close>

text \<open>\<open>s.replace(old, new)\<close>: every non-overlapping occurrence, scanning from the left.\<close>

function replace :: "string \<Rightarrow> string \<Rightarrow> string \<Rightarrow> string" where
  "replace [] old new = (if old = [] then new else [])"
| "replace (c # cs) old new =
     (if old = [] then new @ c # replace cs old new
      else if take (length old) (c # cs) = old
           then new @ replace (drop (length old) (c # cs)) old new
      else c # replace cs old new)"
  by pat_completeness auto
termination
  by (relation "measure (\<lambda>(s, old, new). length s)") auto

text \<open>\<open>str(n)\<close> for an integer, in decimal.\<close>

definition digit_char :: "nat \<Rightarrow> char" where
  "digit_char d = ''0123456789'' ! d"

function str_nat :: "nat \<Rightarrow> string" where
  "str_nat n = (if n < 10 then [digit_char n] else str_nat (n div 10) @ [digit_char (n mod 10)])"
  by pat_completeness auto
termination
  by (relation "measure id") auto

definition str_int :: "int \<Rightarrow> string" where
  "str_int i = (if i < 0 then CHR ''-'' # str_nat (nat (- i)) else str_nat (nat i))"

section \<open>The Responses API as seen by the scripts\<close>

record annotation =
  ann_filename :: "string attr"

record content_part =
  part_annotations :: "annotation list attr"
  part_text :: "string attr"

record output_item =
  item_content :: "content_part list attr"
  item_annotations :: "annotation list attr"

record response =
  resp_output :: "output_item list"

record file_search_tool =
  vector_store_ids :: "string list"
  max_num_results :: int

record request =
  req_input :: string
  req_model :: string
  req_tools :: "file_search_tool list"
  req_tool_choice :: "string option"

section \<open>evaluate\_retrieval\<close>

text \<open>
  \<open>self.client.responses.create\<close> is a remote service: it is a parameter of the model. In
  \<open>evaluate_retrieval\<close> it is called once per row from a thread pool; the parameter takes
  the position of the row next to the request, so that equal requests may get different
  answers. Console output of \<open>process_query\<close> does not reach the returned value and is
  left out.
\<close>

type_synonym responses_api = "nat \<Rightarrow> request \<Rightarrow> py_exception + response"

record row =
  row_query :: string
  row_id :: string

text \<open>
  The file a query is expected to retrieve: line 162 strips every \<open>.pdf\<close> from the key
  and line 171 appends one.
\<close>

definition expected_filename_of :: "string \<Rightarrow> string" where
  "expected_filename_of key = replace key ''.pdf'' '''' @ ''.pdf''"

text \<open>Lines 185 to 190 of \<open>process_query\<close>: where the annotations are read from.\<close>

definition extract_annotations :: "response \<Rightarrow> py_exception + annotation list option" where
  "extract_annotations r =
     (case py_index (resp_output r) 1 of
        Inl e \<Rightarrow> Inl e
      | Inr item \<Rightarrow>
          (case item_content item of
             Has (c # cs) \<Rightarrow>
               (case part_annotations c of
                  Missing \<Rightarrow> Inl (Raised AttributeError ''annotations'')
                | PyNone \<Rightarrow> Inr None
                | Has anns \<Rightarrow> Inr (Some anns))
           | _ \<Rightarrow>
               (case item_annotations item of
                  Has anns \<Rightarrow> Inr (Some anns)
                | _ \<Rightarrow> Inr None)))"

definition result_filename :: "annotation \<Rightarrow> py_exception + string option" where
  "result_filename a =
     (case ann_filename a of
        Missing \<Rightarrow> Inl (Raised AttributeError ''filename'')
      | PyNone \<Rightarrow> Inr None
      | Has s \<Rightarrow> Inr (Some s))"

text \<open>
  Lines 174 to 197: the call, the annotations and the top-k retrieved filenames. The
  result is \<open>Inr None\<close> when there are no annotations.
\<close>

definition retrieved_files ::
  "responses_api \<Rightarrow> string \<Rightarrow> int \<Rightarrow> string \<Rightarrow> nat \<Rightarrow> string
     \<Rightarrow> py_exception + string option list option" where
  "retrieved_files client vector_store_id k model i query =
     (case client i \<lparr>req_input = query, req_model = model,
                      req_tools = [\<lparr>vector_store_ids = [vector_store_id], max_num_results = k\<rparr>],
                      req_tool_choice = Some ''required''\<rparr> of
        Inl e \<Rightarrow> Inl e
      | Inr r \<Rightarrow>
          (case extract_annotations r of
             Inl e \<Rightarrow> Inl e
           | Inr None \<Rightarrow> Inr None
           | Inr (Some anns) \<Rightarrow>
               (case traverse result_filename (slice_to k anns) of
                  Inl e \<Rightarrow> Inl e
                | Inr fs \<Rightarrow> Inr (Some fs))))"

text \<open>
  Lines 207 to 212: the loop over \<open>enumerate(retrieved_files)\<close>, with the loop index, the
  count of relevant hits and the list of precisions as accumulators.
\<close>

fun precisions_loop ::
  "string option \<Rightarrow> string option list \<Rightarrow> nat \<Rightarrow> nat \<Rightarrow> rat list \<Rightarrow> rat list" where
  "precisions_loop expected [] i num_relevant precisions = precisions"
| "precisions_loop expected (fname # rest) i num_relevant precisions =
     (if fname = expected
      then precisions_loop expected rest (i + 1) (num_relevant + 1)
             (precisions @ [of_nat (num_relevant + 1) / of_nat (i + 1)])
      else precisions_loop expected rest (i + 1) num_relevant precisions)"

text \<open>Lines 198 to 225: reciprocal rank and average precision of one retrieved list.\<close>

definition score_query ::
  "string \<Rightarrow> string option list \<Rightarrow> py_exception + bool \<times> rat \<times> rat" where
  "score_query expected_filename files =
     (let precisions = precisions_loop (Some expected_filename) files 0 0 [];
          avg_precision =
            (if precisions \<noteq> [] then sum_list precisions / of_nat (length precisions) else 0)
      in if Some expected_filename \<in> set files
         then (case list_index files (Some expected_filename) of
                 Inl e \<Rightarrow> Inl e
               | Inr i \<Rightarrow> Inr (True, 1 / of_nat (i + 1), avg_precision))
         else Inr (False, 0, avg_precision))"

definition process_query ::
  "responses_api \<Rightarrow> string \<Rightarrow> int \<Rightarrow> string \<Rightarrow> nat \<times> row
     \<Rightarrow> py_exception + bool \<times> rat \<times> rat" where
  "process_query client vector_store_id k model ir =
     (case ir of (i, r) \<Rightarrow>
        (case retrieved_files client vector_store_id k model i (row_query r) of
           Inl e \<Rightarrow> Inl e
         | Inr None \<Rightarrow> Inr (False, 0, 0)
         | Inr (Some files) \<Rightarrow> score_query (row_id r @ ''.pdf'') files))"

text \<open>Lines 230 to 234: the aggregation loop over the results.\<close>

fun aggregate ::
  "(bool \<times> rat \<times> rat) list \<Rightarrow> nat \<times> rat list \<times> rat list \<Rightarrow> nat \<times> rat list \<times> rat list" where
  "aggregate [] acc = acc"
| "aggregate ((correct, rr, avg_precision) # rest) (correct_retrievals_at_k, reciprocal_ranks, average_precisions) =
     aggregate rest
       ((if correct then correct_retrievals_at_k + 1 else correct_retrievals_at_k),
        reciprocal_ranks @ [rr], average_precisions @ [avg_precision])"

definition make_rows :: "(string \<times> string) list \<Rightarrow> row list" where
  "make_rows questions_dict =
     map (\<lambda>(filename, query). \<lparr>row_query = query, row_id = replace filename ''.pdf'' ''''\<rparr>)
       questions_dict"

text \<open>
  The dictionary of questions is the list of its items in iteration order; the metrics
  dictionary is a map from its string keys.
\<close>

definition evaluate_retrieval ::
  "responses_api \<Rightarrow> string \<Rightarrow> (string \<times> string) list \<Rightarrow> int \<Rightarrow> string
     \<Rightarrow> py_exception + (string \<rightharpoonup> rat)" where
  "evaluate_retrieval client vector_store_id questions_dict k model =
     (let rows = make_rows questions_dict;
          total_queries = length rows
      in case traverse (process_query client vector_store_id k model) (enumerate 0 rows) of
           Inl e \<Rightarrow> Inl e
         | Inr results \<Rightarrow>
             (case aggregate results (0, [], []) of
                (correct_retrievals_at_k, reciprocal_ranks, average_precisions) \<Rightarrow>
                  (case truediv (of_nat correct_retrievals_at_k) (of_nat total_queries) of
                     Inl e \<Rightarrow> Inl e
                   | Inr recall_at_k \<Rightarrow>
                       (let precision_at_k = recall_at_k in
                        case truediv (sum_list reciprocal_ranks) (of_nat total_queries) of
                          Inl e \<Rightarrow> Inl e
                        | Inr mrr \<Rightarrow>
                            (case truediv (sum_list average_precisions) (of_nat total_queries) of
                               Inl e \<Rightarrow> Inl e
                             | Inr map_score \<Rightarrow>
                                 Inr [''recall@'' @ str_int k \<mapsto> recall_at_k,
                                      ''precision@'' @ str_int k \<mapsto> precision_at_k,
                                      ''mrr'' \<mapsto> mrr,
                                      ''map'' \<mapsto> map_score])))))"

section \<open>Uploading a directory of PDF files\<close>

subsection \<open>File names and paths\<close>

text \<open>
  File names are strings of bytes. \<open>lower\<close> folds the ASCII capitals, as \<open>str.lower\<close> does on
  ASCII text, and leaves every other byte alone.
\<close>

definition lower_char :: "char \<Rightarrow> char" where
  "lower_char c =
     (case map_of (zip ''ABCDEFGHIJKLMNOPQRSTUVWXYZ'' ''abcdefghijklmnopqrstuvwxyz'') c of
        None \<Rightarrow> c
      | Some d \<Rightarrow> d)"

definition lower :: "string \<Rightarrow> string" where
  "lower s = map lower_char s"

definition endswith :: "string \<Rightarrow> string \<Rightarrow> bool" where
  "endswith s suffix =
     (length suffix \<le> length s \<and> drop (length s - length suffix) s = suffix)"

text \<open>\<open>os.path.join\<close> and \<open>os.path.basename\<close> on POSIX paths.\<close>

definition path_join :: "string \<Rightarrow> string \<Rightarrow> string" where
  "path_join a b =
     (if b \<noteq> [] \<and> hd b = CHR ''/'' then b
      else if a = [] \<or> last a = CHR ''/'' then a @ b
      else a @ ''/'' @ b)"

definition basename :: "string \<Rightarrow> string" where
  "basename p = rev (takeWhile (\<lambda>c. c \<noteq> CHR ''/'') (rev p))"

subsection \<open>The world outside the process\<close>

text \<open>
  The file system and the vendor's endpoints are parameters: each field says what one
  call returns or raises. A file handle is identified with the path it was opened from.
\<close>

type_synonym file_handle = string

record file_object =
  fo_id :: string

record vector_store =
  vs_id :: string
  vs_name :: string
  vs_created_at :: int
  vs_file_counts_completed :: int

record content_item =
  ci_text :: string

record search_result =
  sr_filename :: string
  sr_score :: rat
  sr_content :: "content_item list"

record search_page =
  sp_data :: "search_result list"

record world =
  os_listdir :: "string \<Rightarrow> py_exception + string list"
  os_open_rb :: "string \<Rightarrow> py_exception + file_handle"
  pdf_reader :: "string \<Rightarrow> py_exception + (py_exception + string option) list"
  files_create :: "file_handle \<Rightarrow> string \<Rightarrow> py_exception + file_object"
  vector_stores_files_create :: "string \<Rightarrow> string \<Rightarrow> py_exception + unit"
  vector_stores_create :: "string \<Rightarrow> py_exception + vector_store"
  vector_stores_search :: "string \<Rightarrow> string \<Rightarrow> py_exception + search_page"
  responses_create :: "request \<Rightarrow> py_exception + response"

subsection \<open>upload\_single\_pdf and upload\_pdf\_files\_to\_vector\_store\<close>

text \<open>
  The result dictionary of one upload: the key \<open>error\<close> is present only on failure. The
  message printed on failure is not part of the returned value and is left out.
\<close>

record upload_result =
  ur_file :: string
  ur_status :: string
  ur_error :: "string option"

record upload_stats =
  total_files :: int
  successful_uploads :: int
  failed_uploads :: int
  errors :: "upload_result list"

text \<open>The body of the \<open>try\<close> block of \<open>upload_single_pdf\<close>, lines 47 to 51.\<close>

definition upload_attempt :: "world \<Rightarrow> string \<Rightarrow> string \<Rightarrow> py_exception + unit" where
  "upload_attempt w file_path vector_store_id =
     (case os_open_rb w file_path of
        Inl e \<Rightarrow> Inl e
      | Inr handle \<Rightarrow>
          (case files_create w handle ''assistants'' of
             Inl e \<Rightarrow> Inl e
           | Inr file_response \<Rightarrow>
               vector_stores_files_create w vector_store_id (fo_id file_response)))"

definition upload_single_pdf :: "world \<Rightarrow> string \<Rightarrow> string \<Rightarrow> upload_result" where
  "upload_single_pdf w file_path vector_store_id =
     (let file_name = basename file_path
      in case upload_attempt w file_path vector_store_id of
           Inr attach_response \<Rightarrow>
             \<lparr>ur_file = file_name, ur_status = ''success'', ur_error = None\<rparr>
         | Inl e \<Rightarrow>
             \<lparr>ur_file = file_name, ur_status = ''failed'', ur_error = Some (str_exception e)\<rparr>)"

text \<open>Lines 68 to 74: the loop over the completed futures.\<close>

fun collect_results :: "upload_result list \<Rightarrow> upload_stats \<Rightarrow> upload_stats" where
  "collect_results [] stats = stats"
| "collect_results (result # rest) stats =
     collect_results rest
       (if ur_status result = ''success''
        then stats\<lparr>successful_uploads := successful_uploads stats + 1\<rparr>
        else stats\<lparr>failed_uploads := failed_uploads stats + 1,
                   errors := errors stats @ [result]\<rparr>)"

definition pdf_files_in :: "string \<Rightarrow> string list \<Rightarrow> string list" where
  "pdf_files_in dir_pdfs entries =
     map (path_join dir_pdfs) (filter (\<lambda>f. endswith (lower f) ''.pdf'') entries)"

text \<open>
  Every file is submitted to the pool, and \<open>as_completed\<close> hands the futures back in the
  order in which the uploads finish. That order is the scheduler's: it is the parameter
  \<open>as_completed\<close>, of which the theorems assume only that it permutes its argument. A future
  is represented by the result it will hold; \<open>upload_single_pdf\<close> never raises, so
  \<open>future.result()\<close> returns it.
\<close>

definition upload_pdf_files_to_vector_store ::
  "world \<Rightarrow> (upload_result list \<Rightarrow> upload_result list) \<Rightarrow> string \<Rightarrow> string
     \<Rightarrow> py_exception + upload_stats" where
  "upload_pdf_files_to_vector_store w as_completed vector_store_id dir_pdfs =
     (case os_listdir w dir_pdfs of
        Inl e \<Rightarrow> Inl e
      | Inr entries \<Rightarrow>
          (let pdf_files = pdf_files_in dir_pdfs entries;
               stats = \<lparr>total_files = int (length pdf_files), successful_uploads = 0,
                        failed_uploads = 0, errors = []\<rparr>;
               futures = map (\<lambda>file_path. upload_single_pdf w file_path vector_store_id) pdf_files
           in Inr (collect_results (as_completed futures) stats)))"

section \<open>Methods that print and return a sentinel\<close>

text \<open>
  Console output is a list of printed lines; a line is the list of the fragments that
  make it up, so that a number or a dictionary inside a line needs no formatting.
\<close>

datatype fragment = S string | V pyval | D "(string \<times> pyval) list"

type_synonym console = "fragment list list"

definition create_vector_store :: "world \<Rightarrow> string \<Rightarrow> (string \<times> pyval) list \<times> console" where
  "create_vector_store w store_name =
     (case vector_stores_create w store_name of
        Inr vector_store \<Rightarrow>
          (let details = [(''id'', PStr (vs_id vector_store)),
                          (''name'', PStr (vs_name vector_store)),
                          (''created_at'', PInt (vs_created_at vector_store)),
                          (''file_count'', PInt (vs_file_counts_completed vector_store))]
           in (details, [[S ''Vector store created: '', D details]]))
      | Inl e \<Rightarrow> ([], [[S (''Error creating vector store: '' @ str_exception e)]]))"

definition vector_search :: "world \<Rightarrow> string \<Rightarrow> string \<Rightarrow> search_page option \<times> console" where
  "vector_search w vector_store_id query =
     (case vector_stores_search w vector_store_id query of
        Inr search_results \<Rightarrow> (Some search_results, [])
      | Inl e \<Rightarrow> (None, [[S (''Error searching vector store: '' @ str_exception e)]]))"

text \<open>
  \<open>extract_text_from_pdf\<close>: the pages are read inside the \<open>try\<close> block, and the text
  gathered before an exception is what the method returns.
\<close>

fun extract_pages ::
  "(py_exception + string option) list \<Rightarrow> string \<Rightarrow> string \<times> py_exception option" where
  "extract_pages [] text = (text, None)"
| "extract_pages (page # pages) text =
     (case page of
        Inl e \<Rightarrow> (text, Some e)
      | Inr None \<Rightarrow> extract_pages pages text
      | Inr (Some page_text) \<Rightarrow>
          (if page_text \<noteq> [] then extract_pages pages (text @ page_text)
           else extract_pages pages text))"

definition extract_text_from_pdf :: "world \<Rightarrow> string \<Rightarrow> string \<times> console" where
  "extract_text_from_pdf w pdf_path =
     (case pdf_reader w pdf_path of
        Inl e \<Rightarrow> ([], [[S (''Error reading '' @ pdf_path @ '': '' @ str_exception e)]])
      | Inr pages \<Rightarrow>
          (case extract_pages pages [] of
             (text, None) \<Rightarrow> (text, [])
           | (text, Some e) \<Rightarrow>
               (text, [[S (''Error reading '' @ pdf_path @ '': '' @ str_exception e)]])))"

text \<open>\<open>response.output[0].content[0].text\<close>, line 153.\<close>

definition first_output_text :: "response \<Rightarrow> py_exception + string option" where
  "first_output_text r =
     (case py_index (resp_output r) 0 of
        Inl e \<Rightarrow> Inl e
      | Inr item \<Rightarrow>
          (case item_content item of
             Missing \<Rightarrow> Inl (Raised AttributeError ''content'')
           | PyNone \<Rightarrow> Inl (Raised TypeError ''NoneType object is not subscriptable'')
           | Has parts \<Rightarrow>
               (case py_index parts 0 of
                  Inl e \<Rightarrow> Inl e
                | Inr part \<Rightarrow>
                    (case part_text part of
                       Missing \<Rightarrow> Inl (Raised AttributeError ''text'')
                     | PyNone \<Rightarrow> Inr None
                     | Has t \<Rightarrow> Inr (Some t)))))"

text \<open>
  \<open>generate_questions\<close> has no \<open>try\<close> block of its own: what the call or the reading of
  the response raises is the method's outcome.
\<close>

definition generate_questions ::
  "world \<Rightarrow> string \<Rightarrow> (py_exception + string option) \<times> console" where
  "generate_questions w pdf_path =
     (case extract_text_from_pdf w pdf_path of
        (text, out) \<Rightarrow>
          (let prompt =
                 ''Can you generate a question that can only be answered from this document?:\<newline>''
                 @ text @ ''\<newline>\<newline>''
           in case responses_create w
                     \<lparr>req_input = prompt, req_model = ''gpt-4o'', req_tools = [],
                      req_tool_choice = None\<rparr> of
                Inl e \<Rightarrow> (Inl e, out)
              | Inr response \<Rightarrow> (first_output_text response, out)))"

subsection \<open>The search action of the command line\<close>

text \<open>Lines 291 to 296: the loop that prints the results.\<close>

fun print_results ::
  "search_result list \<Rightarrow> nat \<Rightarrow> console \<Rightarrow> (py_exception + unit) \<times> console" where
  "print_results [] i out = (Inr (), out)"
| "print_results (result # rest) i out =
     (let out1 = out @ [[S (''Result '' @ str_int (int i + 1) @ '':'')],
                        [S (''Filename: '' @ sr_filename result)],
                        [S ''Score: '', V (PFloat (sr_score result))]]
      in case py_index (sr_content result) 0 of
           Inl e \<Rightarrow> (Inl e, out1)
         | Inr c \<Rightarrow>
             print_results rest (i + 1)
               (out1 @ [[S (''Content length: '' @ str_int (int (length (ci_text c))))],
                        [S ''---'']]))"

text \<open>
  Lines 285 to 296 of \<open>main\<close>, after the arguments are parsed and the client is built.
  An option that was not given is \<open>None\<close>; \<open>not args.store_id\<close> also holds for the empty
  string.
\<close>

definition main_search ::
  "world \<Rightarrow> string option \<Rightarrow> string option \<Rightarrow> (py_exception + unit) \<times> console" where
  "main_search w store_id query =
     (case (store_id, query) of
        (Some sid, Some q) \<Rightarrow>
          (if sid = [] \<or> q = []
           then (Inr (), [[S ''Error: store_id and query are required for search action'']])
           else (case vector_search w sid q of
                   (None, out) \<Rightarrow>
                     (Inl (Raised AttributeError ''NoneType object has no attribute data''), out)
                 | (Some results, out) \<Rightarrow> print_results (sp_data results) 0 out))
      | _ \<Rightarrow> (Inr (), [[S ''Error: store_id and query are required for search action'']]))"

section \<open>create\_visualization\_data\<close>






















section \<open>Concrete inputs\<close>

text \<open>
  A directory with three PDF files and one other file, in a world where the upload of one
  file is refused and where the search and the Responses endpoints cannot be reached.
\<close>

definition mock_world :: world where
  "mock_world =
     \<lparr>os_listdir = (\<lambda>d. if d = ''pdfs'' then Inr [''a.pdf'', ''notes.txt'', ''B.PDF'', ''c.pdf'']
                          else Inl (Raised OSError ''No such file or directory'')),
      os_open_rb = (\<lambda>p. Inr p),
      pdf_reader = (\<lambda>p. Inr [Inr (Some ''Some text.'')]),
      files_create = (\<lambda>handle purpose.
                        if handle = ''pdfs/B.PDF'' then Inl (Raised ApiError ''Invalid file'')
                        else Inr \<lparr>fo_id = ''file_'' @ handle\<rparr>),
      vector_stores_files_create = (\<lambda>vector_store_id file_id. Inr ()),
      vector_stores_create = (\<lambda>name. Inl (Raised ApiError ''Connection error.'')),
      vector_stores_search = (\<lambda>vector_store_id query. Inl (Raised ApiError ''Connection error.'')),
      responses_create = (\<lambda>req. Inl (Raised ApiError ''Connection error.''))\<rparr>"





text \<open>
  A response shaped like the one the repository's tests build: two output items, the
  second holding one content part whose annotations name the given files.
\<close>

definition mock_response :: "string list \<Rightarrow> response" where
  "mock_response names =
     \<lparr>resp_output =
        [\<lparr>item_content = Missing, item_annotations = Missing\<rparr>,
         \<lparr>item_content =
            Has [\<lparr>part_annotations = Has (map (\<lambda>n. \<lparr>ann_filename = Has n\<rparr>) names),
                 part_text = Has ''LLM generated response''\<rparr>],
          item_annotations = Missing\<rparr>]\<rparr>"

definition mock_client :: responses_api where
  "mock_client i req =
     (if req_input req = ''q1'' then Inr (mock_response [''b.pdf'', ''a.pdf''])
      else if req_input req = ''q2'' then Inr (mock_response [''b.pdf'', ''c.pdf''])
      else if req_input req = ''q3'' then Inr (mock_response [''a.pdf''])
      else Inl (Raised ApiError ''Connection error.''))"

section \<open>Properties\<close>

subsection \<open>Retrieval metrics\<close>

lemma aggregate_eq:
  "aggregate results (c, rrs, aps) =
     (c + length (filter fst results), rrs @ map (\<lambda>r. fst (snd r)) results,
      aps @ map (\<lambda>r. snd (snd r)) results)"
  by (induction results arbitrary: c rrs aps) auto

lemma length_make_rows: "length (make_rows qd) = length qd"
  by (simp add: make_rows_def)

lemma evaluate_retrieval_results:
  assumes "traverse (process_query client vs k model) (enumerate 0 (make_rows qd)) = Inr results"
  shows "evaluate_retrieval client vs qd k model =
     (   if qd = [] then Inl (Raised ZeroDivisionError ''division by zero'')
          else Inr [''recall@'' @ str_int k \<mapsto> of_nat (length (filter fst results)) / of_nat (length qd),
                ''precision@'' @ str_int k \<mapsto> of_nat (length (filter fst results)) / of_nat (length qd),
                ''mrr'' \<mapsto> sum_list (map (\<lambda>r. fst (snd r)) results) / of_nat (length qd),
                ''map'' \<mapsto> sum_list (map (\<lambda>r. snd (snd r)) results) / of_nat (length qd)])"
  apply (simp only: evaluate_retrieval_def Let_def assms sum.case aggregate_eq prod.case length_make_rows)
  apply (simp only: truediv_def)
  apply (cases "qd = []")
  apply (simp_all only: if_True if_False list.size of_nat_0 simp_thms sum.case)
  apply (simp only: of_nat_eq_0_iff length_0_conv if_False simp_thms sum.case Let_def add_0 append_Nil)
  done

lemma traverse_Cons_Inr:
  "traverse f (x # xs) = Inr zs \<longleftrightarrow> (\<exists>y ys. zs = y # ys \<and> f x = Inr y \<and> traverse f xs = Inr ys)"
  by (auto split: sum.splits)

lemma traverse_Inr_iff:
  "traverse f xs = Inr ys \<longleftrightarrow> list_all2 (\<lambda>x y. f x = Inr y) xs ys"
proof (induction xs arbitrary: ys)
  case Nil
  show ?case by auto
next
  case (Cons x xs)
  have "traverse f (x # xs) = Inr ys \<longleftrightarrow>
        (\<exists>y ys'. ys = y # ys' \<and> f x = Inr y \<and> traverse f xs = Inr ys')"
    by (rule traverse_Cons_Inr)
  also have "\<dots> \<longleftrightarrow> (\<exists>y ys'. ys = y # ys' \<and> f x = Inr y \<and> list_all2 (\<lambda>x y. f x = Inr y) xs ys')"
    by (simp only: Cons.IH)
  also have "\<dots> \<longleftrightarrow> list_all2 (\<lambda>x y. f x = Inr y) (x # xs) ys"
    by (simp only: list_all2_Cons1)
  finally show ?case .
qed

lemma traverse_total:
  "\<forall>x \<in> set xs. \<exists>y. f x = Inr y \<Longrightarrow> \<exists>ys. traverse f xs = Inr ys"
proof (induction xs)
  case Nil
  then show ?case by simp
next
  case (Cons x xs)
  then obtain y ys where "f x = Inr y" "traverse f xs = Inr ys" by auto
  then show ?case by simp
qed

lemma metrics_lookup:
  fixes a b c d :: rat
  assumes "m = [''recall@'' @ s \<mapsto> a, ''precision@'' @ s \<mapsto> b, ''mrr'' \<mapsto> c, ''map'' \<mapsto> d]"
  shows "m (''recall@'' @ s) = Some a" "m (''precision@'' @ s) = Some b"
    "m ''mrr'' = Some c" "m ''map'' = Some d"
  using assms by simp_all

lemma precisions_loop_bounds:
  "num_relevant \<le> i \<Longrightarrow> \<forall>p \<in> set precisions. 0 \<le> p \<and> p \<le> 1 \<Longrightarrow>
   \<forall>p \<in> set (precisions_loop expected files i num_relevant precisions). 0 \<le> p \<and> p \<le> 1"
proof (induction files arbitrary: i num_relevant precisions)
  case Nil
  then show ?case by simp
next
  case (Cons fname rest)
  show ?case
  proof (cases "fname = expected")
    case True
    have le: "(of_nat (num_relevant + 1) :: rat) \<le> of_nat (i + 1)"
      using Cons.prems(1) by (simp only: of_nat_le_iff)
    have pos: "(0::rat) < of_nat (i + 1)"
      by (simp only: of_nat_0_less_iff)
    have "(of_nat (num_relevant + 1) :: rat) / of_nat (i + 1) \<le> 1"
      using le pos by (simp only: divide_le_eq_1_pos)
    moreover have "0 \<le> (of_nat (num_relevant + 1) :: rat) / of_nat (i + 1)"
      by (rule divide_nonneg_nonneg) (simp_all only: of_nat_0_le_iff)
    ultimately have a: "\<forall>p \<in> set (precisions @ [of_nat (num_relevant + 1) / of_nat (i + 1)]). 0 \<le> p \<and> p \<le> 1"
      using Cons.prems(2) by (simp only: set_append set_simps) blast
    have b: "num_relevant + 1 \<le> i + 1" using Cons.prems(1) by simp
    have "\<forall>p \<in> set (precisions_loop expected rest (i + 1) (num_relevant + 1)
             (precisions @ [of_nat (num_relevant + 1) / of_nat (i + 1)])). 0 \<le> p \<and> p \<le> 1"
      by (rule Cons.IH[OF b a])
    then show ?thesis using True by (simp only: precisions_loop.simps simp_thms if_True)
  next
    case False
    have b: "num_relevant \<le> i + 1" using Cons.prems(1) by simp
    have "\<forall>p \<in> set (precisions_loop expected rest (i + 1) num_relevant precisions). 0 \<le> p \<and> p \<le> 1"
      by (rule Cons.IH[OF b Cons.prems(2)])
    then show ?thesis using False by (simp only: precisions_loop.simps simp_thms if_False)
  qed
qed

lemma sum_list_unit_bounds:
  fixes xs :: "rat list"
  shows "\<forall>x \<in> set xs. 0 \<le> x \<and> x \<le> 1 \<Longrightarrow> 0 \<le> sum_list xs \<and> sum_list xs \<le> of_nat (length xs)"
proof (induction xs)
  case Nil
  then show ?case by simp
next
  case (Cons x xs)
  then have "0 \<le> x" "x \<le> 1" "0 \<le> sum_list xs" "sum_list xs \<le> of_nat (length xs)" by auto
  then show ?case by simp
qed

lemma mean_unit_bounds:
  fixes xs :: "rat list"
  assumes "\<forall>x \<in> set xs. 0 \<le> x \<and> x \<le> 1" "length xs \<le> n" "0 < n"
  shows "0 \<le> sum_list xs / of_nat n \<and> sum_list xs / of_nat n \<le> 1"
proof -
  from sum_list_unit_bounds[OF assms(1)] have s: "0 \<le> sum_list xs" "sum_list xs \<le> of_nat (length xs)"
    by auto
  have "(of_nat (length xs) :: rat) \<le> of_nat n" using assms(2) by simp
  with s have "sum_list xs \<le> of_nat n" by linarith
  with s(1) assms(3) show ?thesis by (simp add: divide_le_eq)
qed

lemma list_index_first:
  "x \<in> set xs \<Longrightarrow>
   \<exists>i. list_index xs x = Inr i \<and> i < length xs \<and> xs ! i = x \<and> (\<forall>j<i. xs ! j \<noteq> x)"
proof (induction xs)
  case Nil
  then show ?case by simp
next
  case (Cons y ys)
  show ?case
  proof (cases "y = x")
    case True
    then show ?thesis by simp
  next
    case False
    with Cons obtain i where i: "list_index ys x = Inr i" "i < length ys" "ys ! i = x" "\<forall>j<i. ys ! j \<noteq> x"
      by auto
    have "\<forall>j<Suc i. (y # ys) ! j \<noteq> x"
    proof (intro allI impI)
      fix j assume "j < Suc i"
      then show "(y # ys) ! j \<noteq> x"
        using False i(4) by (cases j) simp_all
    qed
    moreover have "list_index (y # ys) x = Inr (Suc i)" using False i(1) by simp
    moreover have "Suc i < length (y # ys)" "(y # ys) ! Suc i = x" using i by simp_all
    ultimately show ?thesis by blast
  qed
qed

lemma score_query_found:
  assumes "Some e \<in> set files"
  shows "\<exists>i ap. score_query e files = Inr (True, 1 / of_nat (i + 1), ap) \<and> i < length files \<and>
           files ! i = Some e \<and> (\<forall>j<i. files ! j \<noteq> Some e)"
proof -
  from list_index_first[OF assms] obtain i where
    i: "list_index files (Some e) = Inr i" "i < length files" "files ! i = Some e"
       "\<forall>j<i. files ! j \<noteq> Some e"
    by blast
  have "\<exists>ap. score_query e files = Inr (True, 1 / of_nat (i + 1), ap)"
    using assms i(1) by (simp add: score_query_def Let_def)
  with i show ?thesis by blast
qed

lemma score_query_absent:
  assumes "Some e \<notin> set files"
  shows "\<exists>ap. score_query e files = Inr (False, 0, ap)"
  using assms by (simp add: score_query_def Let_def)

lemma score_query_bounds:
  assumes "score_query e files = Inr (c, rr, ap)"
  shows "0 \<le> rr \<and> rr \<le> 1 \<and> 0 \<le> ap \<and> ap \<le> 1"
proof -
  let ?ps = "precisions_loop (Some e) files 0 0 []"
  let ?ap = "if ?ps \<noteq> [] then sum_list ?ps / of_nat (length ?ps) else 0"
  have ps: "\<forall>p \<in> set ?ps. 0 \<le> p \<and> p \<le> 1"
    by (rule precisions_loop_bounds) simp_all
  have ap_bounds: "0 \<le> ?ap \<and> ?ap \<le> 1"
  proof (cases "?ps = []")
    case True
    then show ?thesis by simp
  next
    case False
    then have "0 < length ?ps" by simp
    from mean_unit_bounds[OF ps le_refl this] False show ?thesis by simp
  qed
  show ?thesis
  proof (cases "Some e \<in> set files")
    case True
    from score_query_found[OF True] obtain i ap' where
      "score_query e files = Inr (True, 1 / of_nat (i + 1), ap')" by blast
    with assms have rr: "rr = 1 / of_nat (i + 1)" by simp
    have "(1::rat) \<le> of_nat (i + 1)" by simp
    then have "0 \<le> rr \<and> rr \<le> 1" unfolding rr by (simp add: divide_le_eq)
    moreover have "ap = ?ap"
      using assms True by (auto simp: score_query_def Let_def split: sum.splits)
    ultimately show ?thesis using ap_bounds by simp
  next
    case False
    then have "rr = 0" "ap = ?ap"
      using assms by (auto simp: score_query_def Let_def)
    then show ?thesis using ap_bounds by simp
  qed
qed

lemma process_query_bounds:
  assumes "process_query client vs k model ir = Inr (c, rr, ap)"
  shows "0 \<le> rr \<and> rr \<le> 1 \<and> 0 \<le> ap \<and> ap \<le> 1"
proof (cases ir)
  case (Pair i r)
  show ?thesis
  proof (cases "retrieved_files client vs k model i (row_query r)")
    case (Inl e)
    with assms Pair show ?thesis by (simp add: process_query_def)
  next
    case (Inr fo)
    show ?thesis
    proof (cases fo)
      case None
      with assms Pair Inr show ?thesis by (simp add: process_query_def)
    next
      case (Some files)
      with assms Pair Inr have "score_query (row_id r @ ''.pdf'') files = Inr (c, rr, ap)"
        by (simp add: process_query_def)
      then show ?thesis by (rule score_query_bounds)
    qed
  qed
qed

lemma make_rows_nth:
  "i < length qd \<Longrightarrow>
   make_rows qd ! i = \<lparr>row_query = snd (qd ! i), row_id = replace (fst (qd ! i)) ''.pdf'' ''''\<rparr>"
  by (simp add: make_rows_def case_prod_beta)

lemma traverse_rows_nth:
  assumes "traverse (process_query client vs k model) (enumerate 0 (make_rows qd)) = Inr results"
  shows "length results = length qd"
    and "i < length qd \<Longrightarrow>
         process_query client vs k model
           (i, \<lparr>row_query = snd (qd ! i), row_id = replace (fst (qd ! i)) ''.pdf'' ''''\<rparr>)
         = Inr (results ! i)"
proof -
  from assms have la: "list_all2 (\<lambda>x y. process_query client vs k model x = Inr y)
      (enumerate 0 (make_rows qd)) results"
    by (simp only: traverse_Inr_iff)
  from list_all2_lengthD[OF la] show len: "length results = length qd"
    by (simp add: length_make_rows)
  assume i: "i < length qd"
  then have "i < length (enumerate 0 (make_rows qd))" by (simp add: length_make_rows)
  from list_all2_nthD[OF la this]
  have "process_query client vs k model (enumerate 0 (make_rows qd) ! i) = Inr (results ! i)" .
  moreover have "enumerate 0 (make_rows qd) ! i = (i, make_rows qd ! i)"
    using i by (simp add: nth_enumerate_eq length_make_rows)
  ultimately show "process_query client vs k model
           (i, \<lparr>row_query = snd (qd ! i), row_id = replace (fst (qd ! i)) ''.pdf'' ''''\<rparr>)
         = Inr (results ! i)"
    using i by (simp add: make_rows_nth)
qed

lemma evaluate_retrieval_Inr:
  assumes "evaluate_retrieval client vs qd k model = Inr m"
  obtains results where
    "qd \<noteq> []"
    "traverse (process_query client vs k model) (enumerate 0 (make_rows qd)) = Inr results"
    "m = [''recall@'' @ str_int k \<mapsto> of_nat (length (filter fst results)) / of_nat (length qd),
          ''precision@'' @ str_int k \<mapsto> of_nat (length (filter fst results)) / of_nat (length qd),
          ''mrr'' \<mapsto> sum_list (map (\<lambda>r. fst (snd r)) results) / of_nat (length qd),
          ''map'' \<mapsto> sum_list (map (\<lambda>r. snd (snd r)) results) / of_nat (length qd)]"
proof (cases "traverse (process_query client vs k model) (enumerate 0 (make_rows qd))")
  case (Inl e)
  then have "evaluate_retrieval client vs qd k model = Inl e"
    by (simp only: evaluate_retrieval_def Let_def sum.case)
  with assms show ?thesis by simp
next
  case (Inr results)
  note unfold = evaluate_retrieval_results[OF Inr]
  show ?thesis
  proof (cases "qd = []")
    case True
    from unfold[unfolded if_P[OF True]] assms show ?thesis by simp
  next
    case False
    from unfold[unfolded if_not_P[OF False]] assms
    have "m = [''recall@'' @ str_int k \<mapsto> of_nat (length (filter fst results)) / of_nat (length qd),
          ''precision@'' @ str_int k \<mapsto> of_nat (length (filter fst results)) / of_nat (length qd),
          ''mrr'' \<mapsto> sum_list (map (\<lambda>r. fst (snd r)) results) / of_nat (length qd),
          ''map'' \<mapsto> sum_list (map (\<lambda>r. snd (snd r)) results) / of_nat (length qd)]"
      by (simp only: sum.inject)
    with False Inr that show ?thesis by blast
  qed
qed

text \<open>
  Claim C9. A non-empty \<open>questions_dict\<close> is a precondition of \<open>evaluate_retrieval\<close>: on
  the empty dictionary no query is run, \<open>total_queries\<close> is 0, and the first of the
  unguarded divisions raises ZeroDivisionError. Neither a metrics dictionary nor a sentinel
  is returned, whatever the service and the other arguments are.
\<close>

theorem evaluate_retrieval_empty_raises:
  "evaluate_retrieval client vector_store_id [] k model =
     Inl (Raised ZeroDivisionError ''division by zero'')"
proof -
  have "traverse (process_query client vector_store_id k model) (enumerate 0 (make_rows [])) = Inr []"
    by (simp add: make_rows_def)
  from evaluate_retrieval_results[OF this] show ?thesis by simp
qed

theorem evaluate_retrieval_empty_raises_witness:
  "evaluate_retrieval mock_client ''vs_1'' [] 5 ''gpt-4o-mini'' =
     Inl (Raised ZeroDivisionError ''division by zero'')"
  by (rule evaluate_retrieval_empty_raises)

text \<open>
  Claim C8. Whenever \<open>evaluate_retrieval\<close> returns a metrics dictionary, the entries
  \<open>precision@k\<close> and \<open>recall@k\<close> are both present and hold the same value, for every
  dictionary of questions, every k and every behaviour of the service.
\<close>

theorem precision_equals_recall:
  assumes "evaluate_retrieval client vector_store_id questions_dict k model = Inr metrics"
  shows "metrics (''precision@'' @ str_int k) = metrics (''recall@'' @ str_int k) \<and>
         metrics (''recall@'' @ str_int k) \<noteq> None"
proof -
  from assms obtain results where
    m: "metrics = [''recall@'' @ str_int k \<mapsto> of_nat (length (filter fst results)) / of_nat (length questions_dict),
          ''precision@'' @ str_int k \<mapsto> of_nat (length (filter fst results)) / of_nat (length questions_dict),
          ''mrr'' \<mapsto> sum_list (map (\<lambda>r. fst (snd r)) results) / of_nat (length questions_dict),
          ''map'' \<mapsto> sum_list (map (\<lambda>r. snd (snd r)) results) / of_nat (length questions_dict)]"
    by (rule evaluate_retrieval_Inr)
  from metrics_lookup(1,2)[OF m] show ?thesis by simp
qed

lemma mock_evaluation_returns:
  "\<exists>m. evaluate_retrieval mock_client ''vs_1'' [(''a.pdf'', ''q1''), (''b.pdf'', ''q2'')] 5 ''gpt-4o-mini'' = Inr m"
  by (simp add: evaluate_retrieval_def make_rows_def enumerate_simps process_query_def
      retrieved_files_def mock_client_def mock_response_def extract_annotations_def
      py_index_def slice_to_def result_filename_def score_query_def Let_def truediv_def)

theorem precision_equals_recall_witness:
  "\<exists>metrics. evaluate_retrieval mock_client ''vs_1'' [(''a.pdf'', ''q1''), (''b.pdf'', ''q2'')] 5 ''gpt-4o-mini''
       = Inr metrics \<and>
     metrics (''precision@'' @ str_int 5) = metrics (''recall@'' @ str_int 5) \<and>
     metrics (''recall@'' @ str_int 5) \<noteq> None"
proof -
  from mock_evaluation_returns obtain m where
    m: "evaluate_retrieval mock_client ''vs_1'' [(''a.pdf'', ''q1''), (''b.pdf'', ''q2'')] 5 ''gpt-4o-mini'' = Inr m"
    by blast
  from precision_equals_recall[OF m] m show ?thesis by blast
qed

lemma results_bounds:
  assumes "traverse (process_query client vs k model) (enumerate 0 (make_rows qd)) = Inr results"
  shows "\<forall>r \<in> set results. 0 \<le> fst (snd r) \<and> fst (snd r) \<le> 1 \<and> 0 \<le> snd (snd r) \<and> snd (snd r) \<le> 1"
proof
  fix r assume "r \<in> set results"
  then obtain i where i: "i < length results" "results ! i = r"
    by (auto simp: in_set_conv_nth)
  from traverse_rows_nth(1)[OF assms] i have "i < length qd" by simp
  from traverse_rows_nth(2)[OF assms this] i(2)
  have "process_query client vs k model
           (i, \<lparr>row_query = snd (qd ! i), row_id = replace (fst (qd ! i)) ''.pdf'' ''''\<rparr>)
         = Inr (fst r, fst (snd r), snd (snd r))"
    by simp
  then show "0 \<le> fst (snd r) \<and> fst (snd r) \<le> 1 \<and> 0 \<le> snd (snd r) \<and> snd (snd r) \<le> 1"
    by (rule process_query_bounds)
qed

text \<open>
  Claim C10. For a non-empty \<open>questions_dict\<close>, the four metrics that
  \<open>evaluate_retrieval\<close> returns (recall@k, precision@k, mrr and map) all lie in the closed
  interval from 0 to 1.
\<close>

theorem metrics_in_unit_interval:
  assumes "questions_dict \<noteq> []"
    and "evaluate_retrieval client vector_store_id questions_dict k model = Inr metrics"
  shows "\<exists>recall precision mrr map_score.
           metrics (''recall@'' @ str_int k) = Some recall \<and> 0 \<le> recall \<and> recall \<le> 1 \<and>
           metrics (''precision@'' @ str_int k) = Some precision \<and> 0 \<le> precision \<and> precision \<le> 1 \<and>
           metrics ''mrr'' = Some mrr \<and> 0 \<le> mrr \<and> mrr \<le> 1 \<and>
           metrics ''map'' = Some map_score \<and> 0 \<le> map_score \<and> map_score \<le> 1"
proof -
  let ?n = "length questions_dict"
  from assms(2) obtain results where
    tr: "traverse (process_query client vector_store_id k model) (enumerate 0 (make_rows questions_dict)) = Inr results"
    and m: "metrics = [''recall@'' @ str_int k \<mapsto> of_nat (length (filter fst results)) / of_nat ?n,
          ''precision@'' @ str_int k \<mapsto> of_nat (length (filter fst results)) / of_nat ?n,
          ''mrr'' \<mapsto> sum_list (map (\<lambda>r. fst (snd r)) results) / of_nat ?n,
          ''map'' \<mapsto> sum_list (map (\<lambda>r. snd (snd r)) results) / of_nat ?n]"
    by (rule evaluate_retrieval_Inr)
  have len: "length results = ?n" by (rule traverse_rows_nth(1)[OF tr])
  have pos: "0 < ?n" using assms(1) by simp
  have "length (filter fst results) \<le> ?n"
    using length_filter_le[of fst results] len by simp
  then have "(of_nat (length (filter fst results)) :: rat) \<le> of_nat ?n"
    by (simp only: of_nat_le_iff)
  then have recall: "0 \<le> (of_nat (length (filter fst results)) :: rat) / of_nat ?n"
    "(of_nat (length (filter fst results)) :: rat) / of_nat ?n \<le> 1"
    using pos by (simp_all add: divide_le_eq)
  from results_bounds[OF tr]
  have rr: "\<forall>x \<in> set (map (\<lambda>r. fst (snd r)) results). 0 \<le> x \<and> x \<le> 1"
    and ap: "\<forall>x \<in> set (map (\<lambda>r. snd (snd r)) results). 0 \<le> x \<and> x \<le> 1"
    by auto
  have l1: "length (map (\<lambda>r. fst (snd r)) results) \<le> ?n"
    and l2: "length (map (\<lambda>r. snd (snd r)) results) \<le> ?n"
    using len by simp_all
  note mrr = mean_unit_bounds[OF rr l1 pos]
  note mp = mean_unit_bounds[OF ap l2 pos]
  from metrics_lookup[OF m] recall mrr mp show ?thesis by blast
qed

theorem metrics_in_unit_interval_witness:
  "\<exists>metrics recall precision mrr map_score.
     evaluate_retrieval mock_client ''vs_1'' [(''a.pdf'', ''q1''), (''b.pdf'', ''q2'')] 5 ''gpt-4o-mini''
       = Inr metrics \<and>
     metrics (''recall@'' @ str_int 5) = Some recall \<and> 0 \<le> recall \<and> recall \<le> 1 \<and>
     metrics (''precision@'' @ str_int 5) = Some precision \<and> 0 \<le> precision \<and> precision \<le> 1 \<and>
     metrics ''mrr'' = Some mrr \<and> 0 \<le> mrr \<and> mrr \<le> 1 \<and>
     metrics ''map'' = Some map_score \<and> 0 \<le> map_score \<and> map_score \<le> 1"
proof -
  have ne: "[(''a.pdf'', ''q1''), (''b.pdf'', ''q2'')] \<noteq> []" by simp
  from mock_evaluation_returns obtain m where
    m: "evaluate_retrieval mock_client ''vs_1'' [(''a.pdf'', ''q1''), (''b.pdf'', ''q2'')] 5 ''gpt-4o-mini'' = Inr m"
    by blast
  from metrics_in_unit_interval[OF ne m] m show ?thesis by blast
qed

lemma process_query_found:
  assumes "retrieved_files client vs k model i (row_query r) = Inr (Some files)"
    and "Some (row_id r @ ''.pdf'') \<in> set files"
  shows "\<exists>rr ap. process_query client vs k model (i, r) = Inr (True, rr, ap)"
proof -
  from score_query_found[OF assms(2)] obtain j ap where
    "score_query (row_id r @ ''.pdf'') files = Inr (True, 1 / of_nat (j + 1), ap)" by blast
  with assms(1) show ?thesis by (simp add: process_query_def)
qed

lemma filter_all_true:
  "\<forall>r \<in> set results. fst r \<Longrightarrow> length (filter fst results) = length results"
  by (induction results) auto

text \<open>
  Claim C1. Let \<open>questions_dict\<close> be non-empty, and let every query get annotations whose
  top-k retrieved filenames contain the expected filename, which is the key with its
  \<open>.pdf\<close> removed and restored. Then \<open>evaluate_retrieval\<close> returns a metrics
  dictionary, and its \<open>recall@k\<close> is 1.
\<close>

theorem recall_is_one_when_all_found:
  assumes "questions_dict \<noteq> []"
    and "\<forall>i < length questions_dict.
           \<exists>files. retrieved_files client vector_store_id k model i (snd (questions_dict ! i)) = Inr (Some files) \<and>
                   Some (expected_filename_of (fst (questions_dict ! i))) \<in> set files"
  shows "\<exists>metrics. evaluate_retrieval client vector_store_id questions_dict k model = Inr metrics \<and>
           metrics (''recall@'' @ str_int k) = Some 1"
proof -
  let ?n = "length questions_dict"
  let ?f = "process_query client vector_store_id k model"
  let ?rows = "enumerate 0 (make_rows questions_dict)"
  have each: "\<exists>rr ap. ?f x = Inr (True, rr, ap)" if "x \<in> set ?rows" for x
  proof -
    from that obtain i where "i < length ?rows" "?rows ! i = x"
      unfolding in_set_conv_nth by blast
    then have i: "i < ?n" "x = (i, make_rows questions_dict ! i)"
      by (simp_all add: length_make_rows nth_enumerate_eq)
    let ?r = "\<lparr>row_query = snd (questions_dict ! i), row_id = replace (fst (questions_dict ! i)) ''.pdf'' ''''\<rparr>"
    from assms(2) i(1) obtain files where
      f: "retrieved_files client vector_store_id k model i (snd (questions_dict ! i)) = Inr (Some files)"
         "Some (expected_filename_of (fst (questions_dict ! i))) \<in> set files"
      by blast
    have "\<exists>rr ap. ?f (i, ?r) = Inr (True, rr, ap)"
      by (rule process_query_found) (use f in \<open>simp_all add: expected_filename_of_def\<close>)
    then show ?thesis using i by (simp add: make_rows_nth)
  qed
  then have "\<forall>x \<in> set ?rows. \<exists>y. ?f x = Inr y" by blast
  from traverse_total[OF this] obtain results where tr: "traverse ?f ?rows = Inr results" by blast
  have len: "length results = ?n" by (rule traverse_rows_nth(1)[OF tr])
  have "\<forall>r \<in> set results. fst r"
  proof
    fix r assume "r \<in> set results"
    then obtain i where i: "i < length results" "results ! i = r"
      by (auto simp: in_set_conv_nth)
    from tr have "list_all2 (\<lambda>x y. ?f x = Inr y) ?rows results" by (simp only: traverse_Inr_iff)
    from list_all2_nthD2[OF this i(1)] i(2) have fx: "?f (?rows ! i) = Inr r" by simp
    have "?rows ! i \<in> set ?rows" using i(1) len by (simp add: length_make_rows)
    from each[OF this] fx show "fst r" by auto
  qed
  then have cnt: "length (filter fst results) = ?n" using len by (simp add: filter_all_true)
  have pos: "(of_nat ?n :: rat) \<noteq> 0" using assms(1) by simp
  from evaluate_retrieval_results[OF tr] assms(1)
  have ev: "evaluate_retrieval client vector_store_id questions_dict k model =
     Inr [''recall@'' @ str_int k \<mapsto> of_nat (length (filter fst results)) / of_nat ?n,
          ''precision@'' @ str_int k \<mapsto> of_nat (length (filter fst results)) / of_nat ?n,
          ''mrr'' \<mapsto> sum_list (map (\<lambda>r. fst (snd r)) results) / of_nat ?n,
          ''map'' \<mapsto> sum_list (map (\<lambda>r. snd (snd r)) results) / of_nat ?n]"
    by (simp only: if_False)
  have one: "(of_nat (length (filter fst results)) :: rat) / of_nat ?n = 1"
    using pos by (simp add: cnt)
  let ?M = "[''recall@'' @ str_int k \<mapsto> (of_nat (length (filter fst results)) :: rat) / of_nat ?n,
          ''precision@'' @ str_int k \<mapsto> of_nat (length (filter fst results)) / of_nat ?n,
          ''mrr'' \<mapsto> sum_list (map (\<lambda>r. fst (snd r)) results) / of_nat ?n,
          ''map'' \<mapsto> sum_list (map (\<lambda>r. snd (snd r)) results) / of_nat ?n]"
  have "?M (''recall@'' @ str_int k) = Some 1"
    by (simp only: metrics_lookup(1)[OF refl] one)
  with ev show ?thesis by blast
qed

lemma mock_retrieved_q1:
  "retrieved_files mock_client ''vs_1'' 5 ''gpt-4o-mini'' i ''q1'' = Inr (Some [Some ''b.pdf'', Some ''a.pdf''])"
  by (simp add: retrieved_files_def mock_client_def mock_response_def extract_annotations_def
      py_index_def slice_to_def result_filename_def)

lemma mock_retrieved_q2:
  "retrieved_files mock_client ''vs_1'' 5 ''gpt-4o-mini'' i ''q2'' = Inr (Some [Some ''b.pdf'', Some ''c.pdf''])"
  by (simp add: retrieved_files_def mock_client_def mock_response_def extract_annotations_def
      py_index_def slice_to_def result_filename_def)

lemma mock_retrieved_q3:
  "retrieved_files mock_client ''vs_1'' 5 ''gpt-4o-mini'' i ''q3'' = Inr (Some [Some ''a.pdf''])"
  by (simp add: retrieved_files_def mock_client_def mock_response_def extract_annotations_def
      py_index_def slice_to_def result_filename_def)

lemma expected_filename_examples:
  "expected_filename_of ''a.pdf'' = ''a.pdf''"
  "expected_filename_of ''b.pdf'' = ''b.pdf''"
  "expected_filename_of ''c'' = ''c.pdf''"
  by (simp_all add: expected_filename_of_def)

theorem recall_is_one_when_all_found_witness:
  "\<exists>metrics. evaluate_retrieval mock_client ''vs_1'' [(''a.pdf'', ''q1''), (''b.pdf'', ''q2'')] 5 ''gpt-4o-mini''
       = Inr metrics \<and> metrics (''recall@'' @ str_int 5) = Some 1"
proof -
  have ne: "[(''a.pdf'', ''q1''), (''b.pdf'', ''q2'')] \<noteq> []" by simp
  have found: "\<forall>i < length [(''a.pdf'', ''q1''), (''b.pdf'', ''q2'')].
           \<exists>files. retrieved_files mock_client ''vs_1'' 5 ''gpt-4o-mini'' i
                      (snd ([(''a.pdf'', ''q1''), (''b.pdf'', ''q2'')] ! i)) = Inr (Some files) \<and>
                   Some (expected_filename_of (fst ([(''a.pdf'', ''q1''), (''b.pdf'', ''q2'')] ! i))) \<in> set files"
    by (simp add: less_Suc_eq mock_retrieved_q1 mock_retrieved_q2 expected_filename_examples)
  show ?thesis by (rule recall_is_one_when_all_found[OF ne found])
qed

lemma process_query_reciprocal_rank:
  assumes "process_query client vs k model (i, r) = Inr (c, rr, ap)"
  shows "case retrieved_files client vs k model i (row_query r) of
           Inl e \<Rightarrow> False
         | Inr None \<Rightarrow> rr = 0
         | Inr (Some files) \<Rightarrow>
             (if Some (row_id r @ ''.pdf'') \<in> set files
              then \<exists>rank. 1 \<le> rank \<and> rank \<le> length files \<and>
                     files ! (rank - 1) = Some (row_id r @ ''.pdf'') \<and>
                     (\<forall>j<rank - 1. files ! j \<noteq> Some (row_id r @ ''.pdf'')) \<and>
                     rr = 1 / of_nat rank
              else rr = 0)"
proof (cases "retrieved_files client vs k model i (row_query r)")
  case (Inl e)
  with assms show ?thesis by (simp add: process_query_def)
next
  case (Inr fo)
  show ?thesis
  proof (cases fo)
    case None
    with assms Inr show ?thesis by (simp add: process_query_def)
  next
    case (Some files)
    with assms Inr have sq: "score_query (row_id r @ ''.pdf'') files = Inr (c, rr, ap)"
      by (simp add: process_query_def)
    show ?thesis
    proof (cases "Some (row_id r @ ''.pdf'') \<in> set files")
      case True
      from score_query_found[OF True] obtain j ap' where
        j: "score_query (row_id r @ ''.pdf'') files = Inr (True, 1 / of_nat (j + 1), ap')"
           "j < length files" "files ! j = Some (row_id r @ ''.pdf'')"
           "\<forall>l<j. files ! l \<noteq> Some (row_id r @ ''.pdf'')"
        by blast
      from sq j(1) have rr: "rr = 1 / of_nat (j + 1)" by simp
      have "1 \<le> j + 1 \<and> j + 1 \<le> length files \<and>
             files ! (j + 1 - 1) = Some (row_id r @ ''.pdf'') \<and>
             (\<forall>l<j + 1 - 1. files ! l \<noteq> Some (row_id r @ ''.pdf'')) \<and>
             rr = 1 / of_nat (j + 1)"
        using j(2,3,4) rr by simp
      then have "\<exists>rank. 1 \<le> rank \<and> rank \<le> length files \<and>
                     files ! (rank - 1) = Some (row_id r @ ''.pdf'') \<and>
                     (\<forall>j<rank - 1. files ! j \<noteq> Some (row_id r @ ''.pdf'')) \<and>
                     rr = 1 / of_nat rank"
        by (rule exI)
      with True Inr Some show ?thesis by simp
    next
      case False
      from score_query_absent[OF False] sq have "rr = 0" by auto
      with False Inr Some show ?thesis by simp
    qed
  qed
qed

text \<open>
  Claim C2. When \<open>evaluate_retrieval\<close> returns, there is one reciprocal rank per query
  such that: for a query whose expected filename occurs in the top-k retrieved filenames
  it is 1/rank, where rank is the 1-based position of the first occurrence of the
  expected filename in the retrieved list; it is 0 when the expected filename is absent
  (or when the response has no annotations); and the returned \<open>mrr\<close> is the sum of the
  reciprocal ranks divided by the number of queries. No query has raised in that case.
\<close>

theorem mrr_is_mean_reciprocal_rank:
  assumes "evaluate_retrieval client vector_store_id questions_dict k model = Inr metrics"
  shows "\<exists>rrs. length rrs = length questions_dict \<and>
           metrics ''mrr'' = Some (sum_list rrs / of_nat (length questions_dict)) \<and>
           (\<forall>i < length questions_dict.
              case retrieved_files client vector_store_id k model i (snd (questions_dict ! i)) of
                Inl e \<Rightarrow> False
              | Inr None \<Rightarrow> rrs ! i = 0
              | Inr (Some files) \<Rightarrow>
                  (if Some (expected_filename_of (fst (questions_dict ! i))) \<in> set files
                   then \<exists>rank. 1 \<le> rank \<and> rank \<le> length files \<and>
                          files ! (rank - 1) = Some (expected_filename_of (fst (questions_dict ! i))) \<and>
                          (\<forall>j<rank - 1. files ! j \<noteq> Some (expected_filename_of (fst (questions_dict ! i)))) \<and>
                          rrs ! i = 1 / of_nat rank
                   else rrs ! i = 0))"
proof -
  let ?n = "length questions_dict"
  from assms obtain results where
    tr: "traverse (process_query client vector_store_id k model) (enumerate 0 (make_rows questions_dict)) = Inr results"
    and m: "metrics = [''recall@'' @ str_int k \<mapsto> of_nat (length (filter fst results)) / of_nat ?n,
          ''precision@'' @ str_int k \<mapsto> of_nat (length (filter fst results)) / of_nat ?n,
          ''mrr'' \<mapsto> sum_list (map (\<lambda>r. fst (snd r)) results) / of_nat ?n,
          ''map'' \<mapsto> sum_list (map (\<lambda>r. snd (snd r)) results) / of_nat ?n]"
    by (rule evaluate_retrieval_Inr)
  let ?rrs = "map (\<lambda>r. fst (snd r)) results"
  have len: "length results = ?n" by (rule traverse_rows_nth(1)[OF tr])
  have a: "length ?rrs = ?n" using len by simp
  have b: "metrics ''mrr'' = Some (sum_list ?rrs / of_nat ?n)"
    by (rule metrics_lookup(3)[OF m])
  have c: "\<forall>i < ?n.
              case retrieved_files client vector_store_id k model i (snd (questions_dict ! i)) of
                Inl e \<Rightarrow> False
              | Inr None \<Rightarrow> ?rrs ! i = 0
              | Inr (Some files) \<Rightarrow>
                  (if Some (expected_filename_of (fst (questions_dict ! i))) \<in> set files
                   then \<exists>rank. 1 \<le> rank \<and> rank \<le> length files \<and>
                          files ! (rank - 1) = Some (expected_filename_of (fst (questions_dict ! i))) \<and>
                          (\<forall>j<rank - 1. files ! j \<noteq> Some (expected_filename_of (fst (questions_dict ! i)))) \<and>
                          ?rrs ! i = 1 / of_nat rank
                   else ?rrs ! i = 0)"
  proof (intro allI impI)
    fix i assume i: "i < ?n"
    let ?r = "\<lparr>row_query = snd (questions_dict ! i), row_id = replace (fst (questions_dict ! i)) ''.pdf'' ''''\<rparr>"
    from traverse_rows_nth(2)[OF tr i]
    have "process_query client vector_store_id k model (i, ?r)
            = Inr (fst (results ! i), fst (snd (results ! i)), snd (snd (results ! i)))"
      by simp
    note prr = process_query_reciprocal_rank[OF this]
    have e: "row_id ?r @ ''.pdf'' = expected_filename_of (fst (questions_dict ! i))"
      by (simp add: expected_filename_of_def)
    have q: "row_query ?r = snd (questions_dict ! i)" by simp
    have nth: "?rrs ! i = fst (snd (results ! i))" using i len by simp
    from prr show "case retrieved_files client vector_store_id k model i (snd (questions_dict ! i)) of
                Inl e \<Rightarrow> False
              | Inr None \<Rightarrow> ?rrs ! i = 0
              | Inr (Some files) \<Rightarrow>
                  (if Some (expected_filename_of (fst (questions_dict ! i))) \<in> set files
                   then \<exists>rank. 1 \<le> rank \<and> rank \<le> length files \<and>
                          files ! (rank - 1) = Some (expected_filename_of (fst (questions_dict ! i))) \<and>
                          (\<forall>j<rank - 1. files ! j \<noteq> Some (expected_filename_of (fst (questions_dict ! i)))) \<and>
                          ?rrs ! i = 1 / of_nat rank
                   else ?rrs ! i = 0)"
      unfolding e q nth .
  qed
  from a b c show ?thesis by blast
qed

lemma mock_evaluation_returns_2:
  "\<exists>m. evaluate_retrieval mock_client ''vs_1'' [(''a.pdf'', ''q1''), (''c'', ''q3'')] 5 ''gpt-4o-mini'' = Inr m"
  by (simp add: evaluate_retrieval_def make_rows_def enumerate_simps process_query_def
      retrieved_files_def mock_client_def mock_response_def extract_annotations_def
      py_index_def slice_to_def result_filename_def score_query_def Let_def truediv_def)

theorem mrr_is_mean_reciprocal_rank_witness:
  "\<exists>metrics. evaluate_retrieval mock_client ''vs_1'' [(''a.pdf'', ''q1''), (''c'', ''q3'')] 5 ''gpt-4o-mini''
       = Inr metrics \<and> metrics ''mrr'' = Some (1 / 4)"
proof -
  let ?qd = "[(''a.pdf'', ''q1''), (''c'', ''q3'')]"
  from mock_evaluation_returns_2 obtain m where
    m: "evaluate_retrieval mock_client ''vs_1'' ?qd 5 ''gpt-4o-mini'' = Inr m"
    by blast
  from mrr_is_mean_reciprocal_rank[OF m] obtain rrs where
    L: "length rrs = length ?qd"
    and M: "m ''mrr'' = Some (sum_list rrs / of_nat (length ?qd))"
    and R: "\<forall>i < length ?qd.
              case retrieved_files mock_client ''vs_1'' 5 ''gpt-4o-mini'' i (snd (?qd ! i)) of
                Inl e \<Rightarrow> False
              | Inr None \<Rightarrow> rrs ! i = 0
              | Inr (Some files) \<Rightarrow>
                  (if Some (expected_filename_of (fst (?qd ! i))) \<in> set files
                   then \<exists>rank. 1 \<le> rank \<and> rank \<le> length files \<and>
                          files ! (rank - 1) = Some (expected_filename_of (fst (?qd ! i))) \<and>
                          (\<forall>j<rank - 1. files ! j \<noteq> Some (expected_filename_of (fst (?qd ! i)))) \<and>
                          rrs ! i = 1 / of_nat rank
                   else rrs ! i = 0)"
    by blast
  from R[rule_format, of 0] obtain rank where
    rank: "1 \<le> rank" "rank \<le> 2"
      "[Some ''b.pdf'', Some ''a.pdf''] ! (rank - 1) = Some ''a.pdf''"
      "rrs ! 0 = 1 / of_nat rank"
    by (auto simp: mock_retrieved_q1 expected_filename_examples)
  have "rank = 2"
  proof (cases "rank = 1")
    case True
    with rank(3) show ?thesis by simp
  next
    case False
    with rank(1,2) show ?thesis by simp
  qed
  with rank(4) have r0: "rrs ! 0 = 1 / 2" by simp
  from R[rule_format, of 1] have r1: "rrs ! 1 = 0"
    by (simp add: mock_retrieved_q3 expected_filename_examples)
  from L obtain a b where ab: "rrs = [a, b]"
    by (auto simp: length_Suc_conv)
  with r0 r1 have "sum_list rrs = 1 / 2" by simp
  with M have "m ''mrr'' = Some (1 / 4)" by simp
  with m show ?thesis by blast
qed

subsection \<open>Upload statistics\<close>

lemma collect_results_eq:
  "collect_results rs stats =
     stats\<lparr>successful_uploads :=
             successful_uploads stats + int (length (filter (\<lambda>r. ur_status r = ''success'') rs)),
           failed_uploads :=
             failed_uploads stats + int (length (filter (\<lambda>r. ur_status r \<noteq> ''success'') rs)),
           errors := errors stats @ filter (\<lambda>r. ur_status r \<noteq> ''success'') rs\<rparr>"
proof (induction rs arbitrary: stats)
  case Nil
  show ?case by simp
next
  case (Cons r rs)
  show ?case
  proof (cases "ur_status r = ''success''")
    case True
    then show ?thesis by (simp add: Cons.IH)
  next
    case False
    then show ?thesis by (simp add: Cons.IH)
  qed
qed


lemma upload_single_pdf_status:
  "ur_status (upload_single_pdf w p vs) = ''success'' \<longleftrightarrow> \<not> isl (upload_attempt w p vs)"
  by (cases "upload_attempt w p vs") (simp_all add: upload_single_pdf_def Let_def)

lemma upload_single_pdf_failed:
  "isl (upload_attempt w p vs) \<Longrightarrow>
   upload_single_pdf w p vs =
     \<lparr>ur_file = basename p, ur_status = ''failed'',
      ur_error = Some (str_exception (projl (upload_attempt w p vs)))\<rparr>"
  by (cases "upload_attempt w p vs") (simp_all add: upload_single_pdf_def Let_def)

lemma upload_returns:
  assumes "os_listdir w dir_pdfs = Inr entries"
  shows "upload_pdf_files_to_vector_store w as_completed vector_store_id dir_pdfs =
     Inr (let futures = map (\<lambda>file_path. upload_single_pdf w file_path vector_store_id)
                          (pdf_files_in dir_pdfs entries);
              done = as_completed futures
          in \<lparr>total_files = int (length (pdf_files_in dir_pdfs entries)),
              successful_uploads = int (length (filter (\<lambda>r. ur_status r = ''success'') done)),
              failed_uploads = int (length (filter (\<lambda>r. ur_status r \<noteq> ''success'') done)),
              errors = filter (\<lambda>r. ur_status r \<noteq> ''success'') done\<rparr>)"
  using assms by (simp add: upload_pdf_files_to_vector_store_def Let_def collect_results_eq)


lemma mock_listdir:
  "os_listdir mock_world ''pdfs'' = Inr [''a.pdf'', ''notes.txt'', ''B.PDF'', ''c.pdf'']"
  by (simp add: mock_world_def)

lemma mock_pdf_names:
  "filter (\<lambda>f. endswith (lower f) ''.pdf'') [''a.pdf'', ''notes.txt'', ''B.PDF'', ''c.pdf'']
     = [''a.pdf'', ''B.PDF'', ''c.pdf'']"
  by (simp add: endswith_def lower_def lower_char_def)


text \<open>
  Claim C6. A failure of an upload is caught inside \<open>upload_single_pdf\<close> and becomes the
  failure record of that file. Whichever uploads fail and in whatever order the tasks
  complete, the method returns; \<open>errors\<close> holds exactly the failure records of the files
  whose upload raised, one per file, with the file's base name and the exception's
  message; and every other submitted file is counted as a success. So no failure keeps a
  remaining file from being processed, and the stats aggregate one result per file.
\<close>

theorem upload_failures_are_per_file:
  assumes "os_listdir w dir_pdfs = Inr entries"
    and "\<forall>xs. mset (as_completed xs) = mset xs"
  shows "\<exists>stats. upload_pdf_files_to_vector_store w as_completed vector_store_id dir_pdfs = Inr stats \<and>
           mset (errors stats) =
             image_mset
               (\<lambda>p. \<lparr>ur_file = basename p, ur_status = ''failed'',
                      ur_error = Some (str_exception (projl (upload_attempt w p vector_store_id)))\<rparr>)
               (filter_mset (\<lambda>p. isl (upload_attempt w p vector_store_id))
                  (mset (pdf_files_in dir_pdfs entries))) \<and>
           successful_uploads stats =
             int (size (filter_mset (\<lambda>p. \<not> isl (upload_attempt w p vector_store_id))
                          (mset (pdf_files_in dir_pdfs entries)))) \<and>
           failed_uploads stats =
             int (size (filter_mset (\<lambda>p. isl (upload_attempt w p vector_store_id))
                          (mset (pdf_files_in dir_pdfs entries))))"
proof -
  let ?files = "pdf_files_in dir_pdfs entries"
  let ?up = "\<lambda>file_path. upload_single_pdf w file_path vector_store_id"
  let ?futures = "map ?up ?files"
  let ?done = "as_completed ?futures"
  let ?ok = "\<lambda>r. ur_status r = ''success''"
  let ?bad = "\<lambda>p. isl (upload_attempt w p vector_store_id)"
  let ?rec = "\<lambda>p. \<lparr>ur_file = basename p, ur_status = ''failed'',
                      ur_error = Some (str_exception (projl (upload_attempt w p vector_store_id)))\<rparr>"
  let ?stats = "\<lparr>total_files = int (length ?files),
              successful_uploads = int (length (filter ?ok ?done)),
              failed_uploads = int (length (filter (\<lambda>r. \<not> ?ok r) ?done)),
              errors = filter (\<lambda>r. \<not> ?ok r) ?done\<rparr>"
  have ret: "upload_pdf_files_to_vector_store w as_completed vector_store_id dir_pdfs = Inr ?stats"
    using upload_returns[OF assms(1), of as_completed vector_store_id] by (simp add: Let_def)
  from assms(2) have perm: "mset ?done = mset ?futures" by blast
  have bad_fut: "filter_mset (\<lambda>r. \<not> ?ok r) (mset ?futures) = image_mset ?rec (filter_mset ?bad (mset ?files))"
  proof -
    have "filter_mset (\<lambda>r. \<not> ?ok r) (mset ?futures)
            = image_mset ?up (filter_mset (\<lambda>p. \<not> ?ok (?up p)) (mset ?files))"
      by (simp add: filter_mset_image_mset comp_def)
    also have "\<dots> = image_mset ?up (filter_mset ?bad (mset ?files))"
      by (simp add: upload_single_pdf_status)
    also have "\<dots> = image_mset ?rec (filter_mset ?bad (mset ?files))"
      by (rule image_mset_cong) (simp add: upload_single_pdf_failed)
    finally show ?thesis .
  qed
  have ok_fut: "filter_mset ?ok (mset ?futures) = image_mset ?up (filter_mset (\<lambda>p. \<not> ?bad p) (mset ?files))"
    by (simp add: filter_mset_image_mset comp_def upload_single_pdf_status)
  have errs: "mset (errors ?stats) = image_mset ?rec (filter_mset ?bad (mset ?files))"
    using bad_fut perm by (simp only: upload_stats.simps mset_filter)
  have "length (filter ?ok ?done) = size (mset (filter ?ok ?done))"
    by (simp only: size_mset)
  also have "\<dots> = size (filter_mset ?ok (mset ?futures))"
    by (simp only: mset_filter perm)
  also have "\<dots> = size (filter_mset (\<lambda>p. \<not> ?bad p) (mset ?files))"
    by (simp only: ok_fut size_image_mset)
  finally have succ: "successful_uploads ?stats = int (size (filter_mset (\<lambda>p. \<not> ?bad p) (mset ?files)))"
    by simp
  have "length (filter (\<lambda>r. \<not> ?ok r) ?done) = size (mset (filter (\<lambda>r. \<not> ?ok r) ?done))"
    by (simp only: size_mset)
  also have "\<dots> = size (filter_mset (\<lambda>r. \<not> ?ok r) (mset ?futures))"
    by (simp only: mset_filter perm)
  also have "\<dots> = size (filter_mset ?bad (mset ?files))"
    by (simp only: bad_fut size_image_mset)
  finally have fail: "failed_uploads ?stats = int (size (filter_mset ?bad (mset ?files)))"
    by simp
  from ret errs succ fail show ?thesis by blast
qed

lemma mock_pdf_files:
  "pdf_files_in ''pdfs'' [''a.pdf'', ''notes.txt'', ''B.PDF'', ''c.pdf'']
     = [''pdfs/a.pdf'', ''pdfs/B.PDF'', ''pdfs/c.pdf'']"
  unfolding pdf_files_in_def mock_pdf_names by (simp add: path_join_def)

lemma mock_upload_attempts:
  "upload_attempt mock_world ''pdfs/a.pdf'' ''vs_1'' = Inr ()"
  "upload_attempt mock_world ''pdfs/B.PDF'' ''vs_1'' = Inl (Raised ApiError ''Invalid file'')"
  "upload_attempt mock_world ''pdfs/c.pdf'' ''vs_1'' = Inr ()"
  by (simp_all add: upload_attempt_def mock_world_def)

theorem upload_failures_are_per_file_witness:
  "\<exists>stats. upload_pdf_files_to_vector_store mock_world rev ''vs_1'' ''pdfs'' = Inr stats \<and>
     mset (errors stats) =
       {#\<lparr>ur_file = ''B.PDF'', ur_status = ''failed'', ur_error = Some ''Invalid file''\<rparr>#} \<and>
     successful_uploads stats = 2 \<and> failed_uploads stats = 1"
proof -
  have perm: "\<forall>xs :: upload_result list. mset (rev xs) = mset xs" by simp
  from upload_failures_are_per_file[OF mock_listdir perm, of "''vs_1''"]
  show ?thesis
    by (simp only: mock_pdf_files) (simp add: mock_upload_attempts basename_def)
qed

subsection \<open>Exceptions and sentinels\<close>

lemma create_vector_store_sentinel:
  "vector_stores_create w store_name = Inl e \<Longrightarrow>
   create_vector_store w store_name =
     ([], [[S (''Error creating vector store: '' @ str_exception e)]])"
  by (simp add: create_vector_store_def)

lemma vector_search_sentinel:
  "vector_stores_search w vector_store_id query = Inl e \<Longrightarrow>
   vector_search w vector_store_id query =
     (None, [[S (''Error searching vector store: '' @ str_exception e)]])"
  by (simp add: vector_search_def)

lemma generate_questions_propagates:
  assumes "\<forall>req. responses_create w req = Inl e"
  shows "fst (generate_questions w pdf_path) = Inl e"
proof (cases "extract_text_from_pdf w pdf_path")
  case (Pair body out)
  with assms show ?thesis by (simp add: generate_questions_def Let_def)
qed

text \<open>
  Claim C4. Not every method that calls the service wraps the call. In a world where
  the Responses endpoint cannot be reached, \<open>generate_questions\<close> ends in the SDK's
  exception: nothing is printed and no sentinel is returned, although the PDF itself was
  read. \<open>create_vector_store\<close> and \<open>vector_search\<close> do print the exception and return
  their sentinel, as \<open>create_vector_store_sentinel\<close> and \<open>vector_search_sentinel\<close>
  show for every world.
\<close>

theorem generate_questions_raises:
  "generate_questions mock_world ''pdfs/a.pdf'' = (Inl (Raised ApiError ''Connection error.''), [])"
  by (simp add: generate_questions_def extract_text_from_pdf_def mock_world_def Let_def)

lemma main_search_on_sentinel:
  assumes "sid \<noteq> []" "q \<noteq> []" "vector_stores_search w sid q = Inl e"
  shows "main_search w (Some sid) (Some q) =
           (Inl (Raised AttributeError ''NoneType object has no attribute data''),
            [[S (''Error searching vector store: '' @ str_exception e)]])"
  using assms by (simp add: main_search_def vector_search_sentinel)

text \<open>
  Claim C5. When the search endpoint cannot be reached, \<open>vector_search\<close> prints the
  exception and returns the sentinel None. The search action of \<open>main\<close> does not test for
  it: reading \<open>results.data\<close> raises AttributeError, and that exception leaves \<open>main\<close>
  with no further message printed.
\<close>

theorem main_search_dereferences_none:
  "vector_search mock_world ''vs_1'' ''what?'' =
     (None, [[S ''Error searching vector store: Connection error.'']]) \<and>
   main_search mock_world (Some ''vs_1'') (Some ''what?'') =
     (Inl (Raised AttributeError ''NoneType object has no attribute data''),
      [[S ''Error searching vector store: Connection error.'']])"
  by (simp add: main_search_def vector_search_def mock_world_def)

subsection \<open>The visualization table\<close>

















end
